theory Spec2Isabelle
  imports Complex_Main "HOL-Library.Word" "HOL-Library.Multiset"
begin

unbundle bit_operations_syntax

section \<open>ESP32 SRAM PUF enrollment (PUF/pufDeri.ino)\<close>

text \<open>
  The sketch runs \<^verbatim>\<open>setup()\<close> once per boot. Everything that survives a boot lives in
  the NVS namespace \<^verbatim>\<open>puf_optimized\<close>, reached through the Arduino
  \<^verbatim>\<open>Preferences\<close> object; everything else a boot depends on (the reset reason, the
  power-up contents of the SRAM block, what \<^verbatim>\<open>malloc\<close> hands out, what
  \<^verbatim>\<open>putBytes\<close> reports) is collected in a record of inputs of that boot.
  \<^verbatim>\<open>setup()\<close> is modelled by \<open>setup_boot\<close> (\<open>setup\<close> is a keyword of Isabelle);
  \<^verbatim>\<open>loop()\<close> is empty. Opening the serial port, the two-second delay,
  \<^verbatim>\<open>prefs.begin\<close> (taken to succeed), \<^verbatim>\<open>prefs.end\<close> and the calls of
  \<^verbatim>\<open>free\<close> change nothing that the model keeps.
\<close>

subsection \<open>Configuration\<close>

type_synonym byte = "8 word"

definition PUF_SIZE :: nat where
  "PUF_SIZE = 256"

definition ENROLL_ROUNDS :: int where
  "ENROLL_ROUNDS = 7"

text \<open>\<^verbatim>\<open>size_t acc_size = PUF_SIZE * 8 * sizeof(uint8_t)\<close>\<close>

definition acc_size :: nat where
  "acc_size = PUF_SIZE * 8 * 1"

subsection \<open>Binary floating point\<close>

text \<open>
  The classifier computes \<^verbatim>\<open>(float)accumulator[i] / (float)ENROLL_ROUNDS\<close> in single
  precision and compares it with the \<^verbatim>\<open>double\<close> constants \<^verbatim>\<open>0.85\<close> and
  \<^verbatim>\<open>1.0 - 0.85\<close>. A finite floating-point number is an exact rational; an IEEE 754
  operation returns the exact result rounded to the nearest number with \<open>p\<close> significant
  bits, ties to even (\<open>p = 24\<close> for \<^verbatim>\<open>float\<close>, \<open>p = 53\<close> for \<^verbatim>\<open>double\<close>).
  \<open>fp_round\<close> is that rounding for non-negative values with an unbounded exponent
  range: all values met here lie between \<open>1/7\<close> and \<open>255/7\<close>, or are zero, far from
  overflow and from the subnormal range.
\<close>

definition pow2 :: "int \<Rightarrow> rat" where
  "pow2 e = (if 0 \<le> e then 2 ^ nat e else 1 / 2 ^ nat (- e))"

fun bit_length :: "nat \<Rightarrow> nat" where
  "bit_length n = (if n = 0 then 0 else Suc (bit_length (n div 2)))"

declare bit_length.simps [simp del]

text \<open>The exponent \<open>e\<close> with \<open>2 ^ e \<le> q < 2 ^ (e + 1)\<close>, for \<open>q > 0\<close>.\<close>

definition ilog2 :: "rat \<Rightarrow> int" where
  "ilog2 q = (if 1 \<le> q then int (bit_length (nat \<lfloor>q\<rfloor>)) - 1
              else - int (bit_length (nat (\<lceil>1 / q\<rceil> - 1))))"

definition round_half_even :: "rat \<Rightarrow> int" where
  "round_half_even x =
     (let n = \<lfloor>x\<rfloor>; r = x - of_int n
      in if r < 1 / 2 then n else if 1 / 2 < r then n + 1 else if even n then n else n + 1)"

definition fp_round :: "nat \<Rightarrow> rat \<Rightarrow> rat" where
  "fp_round p q =
     (if q \<le> 0 then 0
      else let ulp = pow2 (ilog2 q - (int p - 1))
           in of_int (round_half_even (q / ulp)) * ulp)"

text \<open>\<^verbatim>\<open>#define STABILITY_THRESHOLD 0.85\<close>: the \<^verbatim>\<open>double\<close> nearest to \<open>85/100\<close>.\<close>

definition STABILITY_THRESHOLD :: rat where
  "STABILITY_THRESHOLD = fp_round 53 (85 / 100)"

subsection \<open>Scanning the SRAM block into the accumulator\<close>

text \<open>
  \<^verbatim>\<open>
  for (int i = 0; i < PUF_SIZE; i++) {
      byte val = puf_ram_block[i];
      for (int bit = 0; bit < 8; bit++) {
          if ((val >> bit) & 1) {
              accumulator[(i*8) + bit]++;
          }
      }
  }
  \<close>
  The counters are \<^verbatim>\<open>uint8_t\<close>, so \<^verbatim>\<open>++\<close> is addition on 8-bit words.
\<close>

definition scan_byte :: "byte \<Rightarrow> nat \<Rightarrow> byte list \<Rightarrow> byte list" where
  "scan_byte val i accumulator =
     fold (\<lambda>bit acc. if drop_bit bit val AND 1 \<noteq> 0
                      then acc[i * 8 + bit := acc ! (i * 8 + bit) + 1]
                      else acc)
          [0..<8] accumulator"

definition scan_ram :: "byte list \<Rightarrow> byte list \<Rightarrow> byte list" where
  "scan_ram ram accumulator =
     fold (\<lambda>i acc. scan_byte (ram ! i) i acc) [0..<PUF_SIZE] accumulator"

subsection \<open>Classifying the counters\<close>

text \<open>
  \<^verbatim>\<open>
  for (int i = 0; i < (PUF_SIZE * 8); i++) {
      float prob = (float)accumulator[i] / (float)ENROLL_ROUNDS;
      if (prob >= STABILITY_THRESHOLD) {
          stable_key_data[i/8] |= (1 << (i%8));
          stable_bits++;
      } else if (prob <= (1.0 - STABILITY_THRESHOLD)) {
          stable_bits++;
      }
  }
  \<close>
  The loop state is the pair \<open>(stable_key_data, stable_bits)\<close>.
\<close>

definition prob_of :: "byte \<Rightarrow> rat" where
  "prob_of c = fp_round 24 (of_nat (unat c) / of_int ENROLL_ROUNDS)"

definition classify_bit :: "byte list \<Rightarrow> nat \<Rightarrow> byte list \<times> int \<Rightarrow> byte list \<times> int" where
  "classify_bit accumulator i st =
     (let stable_key_data = fst st; stable_bits = snd st;
          prob = prob_of (accumulator ! i)
      in if STABILITY_THRESHOLD \<le> prob
         then (stable_key_data[i div 8 := stable_key_data ! (i div 8) OR push_bit (i mod 8) 1],
               stable_bits + 1)
         else if prob \<le> fp_round 53 (1 - STABILITY_THRESHOLD)
         then (stable_key_data, stable_bits + 1)
         else (stable_key_data, stable_bits))"

definition classify_upto :: "byte list \<Rightarrow> nat \<Rightarrow> byte list \<times> int" where
  "classify_upto accumulator n =
     fold (classify_bit accumulator) [0..<n] (replicate PUF_SIZE 0, 0)"

definition classify :: "byte list \<Rightarrow> byte list \<times> int" where
  "classify accumulator = classify_upto accumulator (PUF_SIZE * 8)"

subsection \<open>The NVS namespace behind \<^verbatim>\<open>Preferences\<close>\<close>

text \<open>
  The sketch keeps three entries in the namespace: \<^verbatim>\<open>init_done\<close> (a bool),
  \<^verbatim>\<open>boot_count\<close> (an \<^verbatim>\<open>int\<close>) and \<^verbatim>\<open>acc\<close> (a blob). The library is not part
  of the repository; the namespace is a map from key names to typed values, and each
  call is the get, put or clear of that map. A getter on a missing key, or on a key of
  another type, returns its default.

  \<^verbatim>\<open>boot_count\<close> is a 32-bit \<^verbatim>\<open>int\<close>; the only values the sketch stores are \<open>0\<close>
  and \<open>boot_count + 1\<close> with \<open>boot_count < 7\<close>, so the addition never overflows and
  the model uses \<open>int\<close>.

  The sketch ignores what \<^verbatim>\<open>clear\<close>, \<^verbatim>\<open>putBool\<close> and \<^verbatim>\<open>putInt\<close> return; in a boot
  that runs to its end they are taken to commit (a boot that stops before a write
  commits is a cut boot, below). It does check what \<^verbatim>\<open>putBytes\<close> returns: that value
  is an input of the boot. \<^verbatim>\<open>putBytes\<close> commits the blob when it returns the requested
  length; a call that returns anything else has not committed, and the entry stays as
  it was.
\<close>

datatype nvs_value = NvsBool bool | NvsInt int | NvsBytes "byte list"

type_synonym preferences = "string \<rightharpoonup> nvs_value"

definition isKey :: "preferences \<Rightarrow> string \<Rightarrow> bool" where
  "isKey prefs key = (prefs key \<noteq> None)"

definition clear :: "preferences \<Rightarrow> preferences" where
  "clear prefs = Map.empty"

definition putBool :: "preferences \<Rightarrow> string \<Rightarrow> bool \<Rightarrow> preferences" where
  "putBool prefs key v = prefs(key \<mapsto> NvsBool v)"

definition putInt :: "preferences \<Rightarrow> string \<Rightarrow> int \<Rightarrow> preferences" where
  "putInt prefs key v = prefs(key \<mapsto> NvsInt v)"

definition getInt :: "preferences \<Rightarrow> string \<Rightarrow> int \<Rightarrow> int" where
  "getInt prefs key dflt = (case prefs key of Some (NvsInt v) \<Rightarrow> v | _ \<Rightarrow> dflt)"

definition getBytesLength :: "preferences \<Rightarrow> string \<Rightarrow> nat" where
  "getBytesLength prefs key = (case prefs key of Some (NvsBytes b) \<Rightarrow> length b | _ \<Rightarrow> 0)"

text \<open>
  \<^verbatim>\<open>getBytes(key, buf, maxLen)\<close> copies the blob over the start of the buffer; it copies
  nothing when the key is missing or the blob is longer than \<^verbatim>\<open>maxLen\<close>. The result is
  the buffer afterwards.
\<close>

definition getBytes :: "preferences \<Rightarrow> string \<Rightarrow> byte list \<Rightarrow> nat \<Rightarrow> byte list" where
  "getBytes prefs key buf maxLen =
     (case prefs key of
        Some (NvsBytes b) \<Rightarrow> if maxLen < length b then buf else b @ drop (length b) buf
      | _ \<Rightarrow> buf)"

text \<open>\<^verbatim>\<open>putBytes(key, buf, len)\<close> when the call returns \<open>written\<close>.\<close>

definition putBytes :: "preferences \<Rightarrow> string \<Rightarrow> byte list \<Rightarrow> nat \<Rightarrow> nat \<Rightarrow> preferences" where
  "putBytes prefs key buf len written =
     (if written = len then prefs(key \<mapsto> NvsBytes (take len buf)) else prefs)"

subsection \<open>The inputs and the results of one boot\<close>

datatype esp_reset_reason_t =
    ESP_RST_UNKNOWN | ESP_RST_POWERON | ESP_RST_EXT | ESP_RST_SW | ESP_RST_PANIC
  | ESP_RST_INT_WDT | ESP_RST_TASK_WDT | ESP_RST_WDT | ESP_RST_DEEPSLEEP
  | ESP_RST_BROWNOUT | ESP_RST_SDIO

text \<open>
  \<^item> \<open>reset_reason\<close>: what \<^verbatim>\<open>esp_reset_reason()\<close> returns;
  \<^item> \<open>puf_ram_block\<close>: \<open>None\<close> when \<^verbatim>\<open>heap_caps_malloc\<close> returns \<^verbatim>\<open>NULL\<close>, otherwise
    the byte found at each offset of the block, which the sketch never initialises;
  \<^item> \<open>accumulator_buf\<close>: the same for \<^verbatim>\<open>malloc(acc_size)\<close>;
  \<^item> \<open>put_returns\<close>: what \<^verbatim>\<open>prefs.putBytes("acc", accumulator, acc_size)\<close> returns.
\<close>

record boot_env =
  reset_reason :: esp_reset_reason_t
  puf_ram_block :: "(nat \<Rightarrow> byte) option"
  accumulator_buf :: "(nat \<Rightarrow> byte) option"
  put_returns :: nat

text \<open>The writing calls a boot makes on the namespace, in order.\<close>

datatype nvs_write =
    Clear
  | PutBool string bool
  | PutInt string int
  | PutBytes string nat nat \<comment> \<open>key, requested length, returned length\<close>

text \<open>
  What goes to the serial port. The two \<^verbatim>\<open>printf\<close> lines carry their arguments:
  \<^verbatim>\<open>"Training Step: %d / %d\n"\<close> and \<^verbatim>\<open>"Stability: %d / %d bits used.\n"\<close>.
\<close>

datatype serial =
    Println string
  | Print string
  | Printf_Training_Step int int
  | Printf_Stability int int

text \<open>
  How \<^verbatim>\<open>setup()\<close> ends: it returns; or it spins in \<^verbatim>\<open>while(1);\<close> after the SRAM block
  could not be allocated; or key generation reads through the \<^verbatim>\<open>NULL\<close> pointer that an
  unchecked \<^verbatim>\<open>malloc\<close> returned.
\<close>

datatype exit_kind = Returned | Halted | Crashed

record boot_result =
  prefs_after :: preferences
  nvs_writes :: "nvs_write list"
  serial_out :: "serial list"
  exit_kind :: exit_kind

subsection \<open>The hash and its printout\<close>

text \<open>
  \<^verbatim>\<open>computeSHA256(data, len, out)\<close> hashes the first \<open>len\<close> bytes; the mbedTLS SHA-256
  itself is a parameter of the model.
\<close>

definition computeSHA256 :: "(byte list \<Rightarrow> byte list) \<Rightarrow> byte list \<Rightarrow> nat \<Rightarrow> byte list" where
  "computeSHA256 mbedtls_sha256 data len = mbedtls_sha256 (take len data)"

definition hex_digit :: "nat \<Rightarrow> char" where
  "hex_digit n = ''0123456789ABCDEF'' ! n"

text \<open>\<^verbatim>\<open>Serial.print(b, HEX)\<close>: upper-case digits, no leading zero.\<close>

definition print_hex :: "byte \<Rightarrow> string" where
  "print_hex b =
     (if unat b < 16 then [hex_digit (unat b)]
      else [hex_digit (unat b div 16), hex_digit (unat b mod 16)])"

definition printHash :: "byte list \<Rightarrow> string" where
  "printHash hash =
     concat (map (\<lambda>i. (if hash ! i < 0x10 then ''0'' else []) @ print_hex (hash ! i)) [0..<32])"

subsection \<open>\<^verbatim>\<open>setup()\<close>\<close>

text \<open>The enrollment branch, lines 68 to 112.\<close>

definition enrollment ::
  "preferences \<Rightarrow> boot_env \<Rightarrow> byte list \<Rightarrow> int \<Rightarrow> nvs_write list \<Rightarrow> serial list \<Rightarrow> boot_result"
where
  "enrollment prefs env ram boot_count ws out =
     (let out1 = out @ [Printf_Training_Step (boot_count + 1) ENROLL_ROUNDS] in
      case accumulator_buf env of
        None \<Rightarrow>
          \<lparr>prefs_after = prefs, nvs_writes = ws,
           serial_out = out1 @ [Println ''Malloc failed''], exit_kind = Returned\<rparr>
      | Some heap \<Rightarrow>
          if 0 < boot_count \<and> getBytesLength prefs ''acc'' \<noteq> acc_size
          then
            \<lparr>prefs_after = putInt prefs ''boot_count'' 0,
             nvs_writes = ws @ [PutInt ''boot_count'' 0],
             serial_out =
               out1 @ [Println ''Storage Error: Accumulator size mismatch. Resetting...''],
             exit_kind = Returned\<rparr>
          else
            let accumulator0 =
                  (if 0 < boot_count
                   then getBytes prefs ''acc'' (map heap [0..<acc_size]) acc_size
                   else replicate acc_size 0);
                accumulator = scan_ram ram accumulator0;
                written = put_returns env;
                prefs1 = putBytes prefs ''acc'' accumulator acc_size written;
                ws1 = ws @ [PutBytes ''acc'' acc_size written]
            in if written \<noteq> acc_size
               then
                 \<lparr>prefs_after = prefs1, nvs_writes = ws1,
                  serial_out =
                    out1 @ [Println ''CRITICAL ERROR: Failed to save to storage! (NVS Full?)''],
                  exit_kind = Returned\<rparr>
               else
                 \<lparr>prefs_after = putInt prefs1 ''boot_count'' (boot_count + 1),
                  nvs_writes = ws1 @ [PutInt ''boot_count'' (boot_count + 1)],
                  serial_out =
                    out1 @ [Println ''>> SNAPSHOT SAVED SUCCESSFULLY.'',
                            Println ''>> ACTION: Unplug and Replug now.''],
                  exit_kind = Returned\<rparr>)"

text \<open>The key generation branch, lines 113 to 146.\<close>

definition key_generation ::
  "(byte list \<Rightarrow> byte list) \<Rightarrow> preferences \<Rightarrow> boot_env \<Rightarrow> nvs_write list \<Rightarrow> serial list
     \<Rightarrow> boot_result"
where
  "key_generation mbedtls_sha256 prefs env ws out =
     (let out1 = out @ [Println ''Training Complete! calculating stable bits...''] in
      case accumulator_buf env of
        None \<Rightarrow>
          \<lparr>prefs_after = prefs, nvs_writes = ws, serial_out = out1, exit_kind = Crashed\<rparr>
      | Some heap \<Rightarrow>
          let accumulator = getBytes prefs ''acc'' (map heap [0..<acc_size]) acc_size;
              stable_key_data = fst (classify accumulator);
              stable_bits = snd (classify accumulator);
              final_hash = computeSHA256 mbedtls_sha256 stable_key_data PUF_SIZE
          in \<lparr>prefs_after = prefs, nvs_writes = ws,
              serial_out =
                out1 @ [Printf_Stability stable_bits (int (PUF_SIZE * 8)),
                        Println ''---------------------------------------------'',
                        Print ''FINAL PUF KEY: '',
                        Println (printHash final_hash),
                        Println ''---------------------------------------------''],
              exit_kind = Returned\<rparr>)"

text \<open>
  One boot: the namespace as the boot finds it and the inputs of the boot give the
  namespace as the boot leaves it, the writes made, the serial output and how
  \<^verbatim>\<open>setup()\<close> ended.
\<close>

definition setup_boot :: "(byte list \<Rightarrow> byte list) \<Rightarrow> preferences \<Rightarrow> boot_env \<Rightarrow> boot_result" where
  "setup_boot mbedtls_sha256 prefs env =
     (let out0 = [Println (CHR 0x0A # ''=== ESP32 OPTIMIZED PUF ENROLLMENT ==='')] in
      case puf_ram_block env of
        None \<Rightarrow>
          \<lparr>prefs_after = prefs, nvs_writes = [],
           serial_out = out0 @ [Println ''Error: Memory allocation failed.''],
           exit_kind = Halted\<rparr>
      | Some sram \<Rightarrow>
          let ram = map sram [0..<PUF_SIZE];
              first_run = \<not> isKey prefs ''init_done'';
              prefs1 =
                (if first_run
                 then putInt (putBool (clear prefs) ''init_done'' True) ''boot_count'' 0
                 else prefs);
              ws =
                (if first_run
                 then [Clear, PutBool ''init_done'' True, PutInt ''boot_count'' 0]
                 else []);
              out1 =
                out0 @ (if first_run
                        then [Println ''>> First run detected. initializing storage...'']
                        else []);
              boot_count = getInt prefs1 ''boot_count'' 0;
              reason = reset_reason env
          in if reason \<noteq> ESP_RST_POWERON \<and> boot_count < ENROLL_ROUNDS
             then
               \<lparr>prefs_after = prefs1, nvs_writes = ws,
                serial_out =
                  out1 @ [Println ''>> IGNORED: Soft Reset detected.'',
                          Println ''>> ACTION: You must physically UNPLUG the USB.''],
                exit_kind = Returned\<rparr>
             else if boot_count < ENROLL_ROUNDS
             then enrollment prefs1 env ram boot_count ws out1
             else key_generation mbedtls_sha256 prefs1 env ws out1)"

subsection \<open>The namespaces a device can reach\<close>






section \<open>The accumulation scan\<close>

lemma shift_and_one: "(drop_bit n (w :: byte) AND 1 \<noteq> 0) = bit w n"
  by (simp add: and_one_eq bit_iff_odd_drop_bit mod_2_eq_odd)

lemma fold_update_length:
  "length (fold (\<lambda>b acc. if P b then acc[idx b := v b acc] else acc) bs acc) = length acc"
  by (induction bs arbitrary: acc) simp_all

lemma scan_bits_nth:
  "k < length (accumulator :: byte list) \<Longrightarrow>
   fold (\<lambda>bit acc. if drop_bit bit (val :: byte) AND 1 \<noteq> 0
                      then acc[i * 8 + bit := acc ! (i * 8 + bit) + 1]
                      else acc) [0..<n] accumulator ! k
   = accumulator ! k + (if i * 8 \<le> k \<and> k < i * 8 + n \<and> bit val (k - i * 8) then 1 else 0)"
proof (induction n)
  case 0
  then show ?case by simp
next
  case (Suc n)
  then show ?case
    by (auto simp: shift_and_one fold_update_length nth_list_update less_Suc_eq)
qed

lemma scan_byte_length: "length (scan_byte val i accumulator) = length accumulator"
  unfolding scan_byte_def by (rule fold_update_length)

lemma scan_byte_nth:
  "k < length accumulator \<Longrightarrow>
   scan_byte val i accumulator ! k
   = accumulator ! k + (if k div 8 = i \<and> bit val (k mod 8) then 1 else 0)"
proof -
  assume k: "k < length accumulator"
  have eq: "(i * 8 \<le> k \<and> k < i * 8 + 8) = (k div 8 = i)" by auto
  have md: "k div 8 = i \<Longrightarrow> k - i * 8 = k mod 8"
    by (metis add_diff_cancel_left' mult.commute mult_div_mod_eq)
  show ?thesis
    unfolding scan_byte_def scan_bits_nth [OF k] using eq md by auto
qed

lemma scan_bytes_length:
  "length (fold (\<lambda>i acc. scan_byte (ram ! i) i acc) [0..<m] accumulator) = length accumulator"
  by (induction m) (simp_all add: scan_byte_length)

lemma scan_bytes_nth:
  "k < length accumulator \<Longrightarrow>
   fold (\<lambda>i acc. scan_byte (ram ! i) i acc) [0..<m] accumulator ! k
   = accumulator ! k + (if k div 8 < m \<and> bit (ram ! (k div 8)) (k mod 8) then 1 else 0)"
proof (induction m)
  case 0
  then show ?case by simp
next
  case (Suc m)
  then show ?case
    by (auto simp: scan_byte_nth scan_bytes_length less_Suc_eq)
qed

lemma scan_ram_length: "length (scan_ram ram accumulator) = length accumulator"
  unfolding scan_ram_def by (rule scan_bytes_length)

lemma scan_ram_nth:
  "k < length accumulator \<Longrightarrow>
   scan_ram ram accumulator ! k
   = accumulator ! k + (if k < PUF_SIZE * 8 \<and> bit (ram ! (k div 8)) (k mod 8) then 1 else 0)"
proof -
  assume k: "k < length accumulator"
  have "(k div 8 < PUF_SIZE) = (k < PUF_SIZE * 8)"
    by (simp add: less_mult_imp_div_less div_less_iff_less_mult)
  then show ?thesis
    unfolding scan_ram_def scan_bytes_nth [OF k] by simp
qed

lemma scan_ram_commute: "scan_ram a (scan_ram b acc) = scan_ram b (scan_ram a acc)"
  by (rule nth_equalityI) (simp_all add: scan_ram_length scan_ram_nth)

lemma scan_ram_comp_commute: "scan_ram a \<circ> scan_ram b = scan_ram b \<circ> scan_ram a"
  by (rule ext) (simp add: scan_ram_commute [of a b])

text \<open>
  Claim C2. For a sample of \<open>PUF_SIZE\<close> bytes and an accumulator of \<open>acc_size\<close>
  counters, the scan returns an accumulator of the same size in which the counter at
  every position \<open>i\<close> is the old counter plus one when bit \<open>i mod 8\<close> of byte
  \<open>i div 8\<close> of the sample is set, and the old counter otherwise. The addition is the
  \<^verbatim>\<open>++\<close> of \<^verbatim>\<open>uint8_t\<close>; for a counter below 255 (any counter that is at most
  \<open>ENROLL_ROUNDS\<close>) the numeric value goes up by exactly one.
\<close>

theorem scan_ram_counts_bits:
  assumes "length ram = PUF_SIZE"
    and "length accumulator = acc_size"
    and "i < acc_size"
  shows "length (scan_ram ram accumulator) = acc_size
       \<and> scan_ram ram accumulator ! i
           = (if bit (ram ! (i div 8)) (i mod 8)
              then accumulator ! i + 1 else accumulator ! i)
       \<and> (unat (accumulator ! i) < 255 \<longrightarrow>
            unat (scan_ram ram accumulator ! i)
            = (if bit (ram ! (i div 8)) (i mod 8)
               then unat (accumulator ! i) + 1 else unat (accumulator ! i)))"
proof -
  from assms have k: "i < length accumulator" and b: "i < PUF_SIZE * 8"
    by (simp_all add: acc_size_def)
  have nth: "scan_ram ram accumulator ! i
           = (if bit (ram ! (i div 8)) (i mod 8)
              then accumulator ! i + 1 else accumulator ! i)"
    using scan_ram_nth [OF k, of ram] b by simp
  have "unat (accumulator ! i + 1) = unat (accumulator ! i) + 1"
    if "unat (accumulator ! i) < 255"
    using that by (simp add: unat_word_ariths)
  with nth assms(2) show ?thesis
    by (simp add: scan_ram_length)
qed

theorem scan_ram_counts_bits_witness:
  "scan_ram (replicate PUF_SIZE 1) (replicate acc_size 6) ! 8 = 7
   \<and> scan_ram (replicate PUF_SIZE 1) (replicate acc_size 6) ! 9 = 6
   \<and> unat (scan_ram (replicate PUF_SIZE 1) (replicate acc_size 6) ! 8) = 7"
proof -
  let ?ram = "replicate PUF_SIZE (1 :: byte)" and ?acc = "replicate acc_size (6 :: byte)"
  have len: "length ?ram = PUF_SIZE" "length ?acc = acc_size"
    by simp_all
  have idx: "8 < acc_size" "9 < acc_size" "1 < PUF_SIZE"
    by (simp_all add: acc_size_def PUF_SIZE_def)
  have ram: "?ram ! (8 div 8) = 1" "?ram ! (9 div 8) = 1"
    using idx(3) by simp_all
  have acc: "?acc ! 8 = 6" "?acc ! 9 = 6"
    using idx(1,2) by simp_all
  from scan_ram_counts_bits [OF len idx(1)] scan_ram_counts_bits [OF len idx(2)]
  show ?thesis
    unfolding ram acc by simp
qed

text \<open>
  Claim C9. Scanning sample \<open>a\<close> and then sample \<open>b\<close> into an accumulator gives the same
  accumulator as scanning \<open>b\<close> and then \<open>a\<close>; and folding the scan over two lists of
  samples that are permutations of each other gives the same accumulator.
\<close>

theorem scan_ram_order_independent:
  assumes "length accumulator = acc_size"
    and "length a = PUF_SIZE"
    and "length b = PUF_SIZE"
  shows "scan_ram b (scan_ram a accumulator) = scan_ram a (scan_ram b accumulator)
       \<and> (\<forall>xs ys. (\<forall>s \<in> set xs. length s = PUF_SIZE) \<longrightarrow> mset xs = mset ys \<longrightarrow>
              fold scan_ram xs accumulator = fold scan_ram ys accumulator)"
proof (intro conjI allI impI)
  show "scan_ram b (scan_ram a accumulator) = scan_ram a (scan_ram b accumulator)"
    by (rule scan_ram_commute)
next
  fix xs ys :: "byte list list"
  assume "mset xs = mset ys"
  with scan_ram_comp_commute have "fold scan_ram xs = fold scan_ram ys"
    by (rule fold_multiset_equiv)
  then show "fold scan_ram xs accumulator = fold scan_ram ys accumulator"
    by (rule fun_cong)
qed

theorem scan_ram_order_independent_witness:
  "scan_ram (replicate PUF_SIZE 2) (scan_ram (replicate PUF_SIZE 1) (replicate acc_size 0))
     = scan_ram (replicate PUF_SIZE 1) (scan_ram (replicate PUF_SIZE 2) (replicate acc_size 0))
   \<and> fold scan_ram [replicate PUF_SIZE 1, replicate PUF_SIZE 2, replicate PUF_SIZE 1]
         (replicate acc_size 0)
     = fold scan_ram [replicate PUF_SIZE 2, replicate PUF_SIZE 1, replicate PUF_SIZE 1]
         (replicate acc_size 0)"
proof -
  let ?a = "replicate PUF_SIZE (1 :: byte)" and ?b = "replicate PUF_SIZE (2 :: byte)"
  note inst = scan_ram_order_independent [of "replicate acc_size 0" ?a ?b]
  have hyps: "length (replicate acc_size (0 :: byte)) = acc_size"
    "length ?a = PUF_SIZE" "length ?b = PUF_SIZE"
    by simp_all
  have m: "mset [?a, ?b, ?a] = mset [?b, ?a, ?a]"
    by simp
  have l: "\<forall>s \<in> set [?a, ?b, ?a]. length s = PUF_SIZE"
    by simp
  from inst [OF hyps, THEN conjunct1] inst [OF hyps, THEN conjunct2, THEN spec, THEN spec, THEN mp, THEN mp, OF l m]
  show ?thesis by (rule conjI)
qed

section \<open>The classification loop\<close>

lemma classify_upto_Suc:
  "classify_upto accumulator (Suc n) = classify_bit accumulator n (classify_upto accumulator n)"
  by (simp add: classify_upto_def)

lemma classify_bit_length: "length (fst (classify_bit accumulator i st)) = length (fst st)"
  by (simp add: classify_bit_def Let_def)

lemma classify_upto_length: "length (fst (classify_upto accumulator n)) = PUF_SIZE"
proof (induction n)
  case 0
  show ?case by (simp add: classify_upto_def)
next
  case (Suc n)
  then show ?case by (simp add: classify_upto_Suc classify_bit_length)
qed

lemma same_position: "(j div 8 = i div 8 \<and> j mod 8 = i mod 8) = (j = (i :: nat))"
  by (metis div_mult_mod_eq)

lemma bit_or_single: "m < 8 \<Longrightarrow> bit (w OR 2 ^ k :: byte) m = (bit w m \<or> m = k)"
  by (auto simp: bit_or_iff bit_exp_iff)

lemma classify_bit_key:
  assumes "i div 8 < length (fst st)" and "j div 8 < length (fst st)"
  shows "bit (fst (classify_bit accumulator i st) ! (j div 8)) (j mod 8)
       = (bit (fst st ! (j div 8)) (j mod 8)
          \<or> (j = i \<and> STABILITY_THRESHOLD \<le> prob_of (accumulator ! i)))"
proof (cases "STABILITY_THRESHOLD \<le> prob_of (accumulator ! i)")
  case False
  then show ?thesis by (simp add: classify_bit_def Let_def)
next
  case True
  have m: "j mod 8 < 8" by simp
  show ?thesis
  proof (cases "j div 8 = i div 8")
    case same: True
    with True assms show ?thesis
      using same_position [of j i]
      by (simp add: classify_bit_def Let_def bit_or_single [OF m])
  next
    case False
    with True assms show ?thesis
      by (auto simp: classify_bit_def Let_def)
  qed
qed

lemma classify_upto_key:
  assumes "n \<le> PUF_SIZE * 8" and "j < PUF_SIZE * 8"
  shows "bit (fst (classify_upto accumulator n) ! (j div 8)) (j mod 8)
       = (j < n \<and> STABILITY_THRESHOLD \<le> prob_of (accumulator ! j))"
  using assms(1)
proof (induction n)
  case 0
  from assms(2) have "j div 8 < PUF_SIZE"
    by (simp add: less_mult_imp_div_less)
  then show ?case by (simp add: classify_upto_def)
next
  case (Suc n)
  then have "n < PUF_SIZE * 8" by simp
  then have n: "n div 8 < length (fst (classify_upto accumulator n))"
    by (simp add: classify_upto_length less_mult_imp_div_less)
  from assms(2) have j: "j div 8 < length (fst (classify_upto accumulator n))"
    by (simp add: classify_upto_length less_mult_imp_div_less)
  from Suc have ih: "bit (fst (classify_upto accumulator n) ! (j div 8)) (j mod 8)
       = (j < n \<and> STABILITY_THRESHOLD \<le> prob_of (accumulator ! j))"
    by simp
  show ?case
    unfolding classify_upto_Suc classify_bit_key [OF n j] ih
    by (auto simp: less_Suc_eq)
qed

lemma classify_bit_count:
  "snd (classify_bit accumulator i st)
   = snd st + (if STABILITY_THRESHOLD \<le> prob_of (accumulator ! i)
                  \<or> prob_of (accumulator ! i) \<le> fp_round 53 (1 - STABILITY_THRESHOLD)
               then 1 else 0)"
  by (simp add: classify_bit_def Let_def)

lemma classify_upto_count:
  "snd (classify_upto accumulator n)
   = int (length (filter (\<lambda>j. STABILITY_THRESHOLD \<le> prob_of (accumulator ! j)
                  \<or> prob_of (accumulator ! j) \<le> fp_round 53 (1 - STABILITY_THRESHOLD)) [0..<n]))"
proof (induction n)
  case 0
  show ?case by (simp add: classify_upto_def)
next
  case (Suc n)
  then show ?case by (simp add: classify_upto_Suc classify_bit_count)
qed

lemma classify_count:
  "snd (classify accumulator)
   = int (card {j. j < acc_size \<and> (STABILITY_THRESHOLD \<le> prob_of (accumulator ! j)
                  \<or> prob_of (accumulator ! j) \<le> fp_round 53 (1 - STABILITY_THRESHOLD))})"
proof -
  have "length (filter P [0..<n]) = card {j. j < n \<and> P j}" for n and P :: "nat \<Rightarrow> bool"
  proof -
    have "{j. j < length [0..<n] \<and> P ([0..<n] ! j)} = {j. j < n \<and> P j}"
      by auto
    then show ?thesis
      by (simp add: length_filter_conv_card)
  qed
  then show ?thesis
    by (simp add: classify_def classify_upto_count acc_size_def)
qed

text \<open>
  The constants and the three frequencies of the scenario, as the rounding gives them:
  \<^verbatim>\<open>0.85\<close> is \<open>0x1.B333333333333p-1\<close>, and \<open>6/7\<close> in single precision is
  \<open>0x1.B6DB6Ep-1\<close>.
\<close>

lemma threshold_values:
  "STABILITY_THRESHOLD = 7656119366529843 / 2 ^ 53"
  "fp_round 53 (1 - STABILITY_THRESHOLD) = 1351079888211149 / 2 ^ 53"
  by code_simp+

lemma prob_of_values:
  "prob_of 6 = 14380471 / 2 ^ 24"
  "prob_of 1 = 9586981 / 2 ^ 26"
  "prob_of 4 = 9586981 / 2 ^ 24"
  by code_simp+

lemma prob_of_6: "STABILITY_THRESHOLD \<le> prob_of 6"
  by code_simp

lemma prob_of_1:
  "\<not> STABILITY_THRESHOLD \<le> prob_of 1" "prob_of 1 \<le> fp_round 53 (1 - STABILITY_THRESHOLD)"
  by code_simp+

lemma prob_of_4:
  "\<not> STABILITY_THRESHOLD \<le> prob_of 4" "\<not> prob_of 4 \<le> fp_round 53 (1 - STABILITY_THRESHOLD)"
  by code_simp+

text \<open>
  Claim C3. With \<open>ENROLL_ROUNDS = 7\<close> and the threshold \<^verbatim>\<open>0.85\<close>, for every accumulator
  and every position \<open>i\<close>: bit \<open>i\<close> of the candidate is set exactly when the frequency is
  at least the threshold; the reported count is the number of positions whose frequency
  is at least the threshold or at most one minus the threshold (both comparisons
  inclusive); a counter of 6 sets the bit and is counted, a counter of 1 leaves the bit
  clear and is counted, a counter of 4 leaves the bit clear and is not counted.
\<close>

theorem stability_classification:
  assumes "length accumulator = acc_size" and "i < acc_size"
  shows "let used = {j. j < acc_size \<and>
                       (STABILITY_THRESHOLD \<le> prob_of (accumulator ! j)
                        \<or> prob_of (accumulator ! j) \<le> fp_round 53 (1 - STABILITY_THRESHOLD))};
             candidate_bit = bit (fst (classify accumulator) ! (i div 8)) (i mod 8)
         in snd (classify accumulator) = int (card used)
          \<and> candidate_bit = (STABILITY_THRESHOLD \<le> prob_of (accumulator ! i))
          \<and> (accumulator ! i = 6 \<longrightarrow> candidate_bit \<and> i \<in> used)
          \<and> (accumulator ! i = 1 \<longrightarrow> \<not> candidate_bit \<and> i \<in> used)
          \<and> (accumulator ! i = 4 \<longrightarrow> \<not> candidate_bit \<and> i \<notin> used)"
proof -
  from assms(2) have i: "i < PUF_SIZE * 8"
    by (simp add: acc_size_def)
  have key: "bit (fst (classify accumulator) ! (i div 8)) (i mod 8)
           = (STABILITY_THRESHOLD \<le> prob_of (accumulator ! i))"
    unfolding classify_def using classify_upto_key [OF order_refl i] i by simp
  show ?thesis
    unfolding Let_def key
    using assms(2) prob_of_6 prob_of_1 prob_of_4
    by (simp add: classify_count)
qed

theorem stability_classification_witness:
  "bit (fst (classify (replicate acc_size 6)) ! (0 div 8)) (0 mod 8)
   \<and> \<not> bit (fst (classify (replicate acc_size 1)) ! (0 div 8)) (0 mod 8)
   \<and> \<not> bit (fst (classify (replicate acc_size 4)) ! (0 div 8)) (0 mod 8)"
proof -
  have i: "0 < acc_size"
    by (simp add: acc_size_def PUF_SIZE_def)
  have len: "length (replicate acc_size c) = acc_size" for c :: byte
    by simp
  have nth: "replicate acc_size c ! 0 = c" for c :: byte
    using i by simp
  from stability_classification [OF len i, of 6] stability_classification [OF len i, of 1]
    stability_classification [OF len i, of 4]
  show ?thesis
    unfolding Let_def nth using prob_of_6 prob_of_1(1) prob_of_4(1) by simp
qed

section \<open>One boot\<close>

lemmas prefs_defs =
  isKey_def clear_def putBool_def putInt_def getInt_def getBytesLength_def getBytes_def
  putBytes_def

lemmas boot_defs = setup_boot_def enrollment_def key_generation_def Let_def

text \<open>
  Claim C5. On a namespace that already holds \<^verbatim>\<open>init_done\<close>, a boot whose reset reason
  is not \<^verbatim>\<open>ESP_RST_POWERON\<close> while \<^verbatim>\<open>boot_count < ENROLL_ROUNDS\<close> makes no writing
  call on the namespace and leaves it as it was, \<^verbatim>\<open>boot_count\<close> and \<^verbatim>\<open>acc\<close> included;
  and once the SRAM block is allocated the boot prints the request to unplug the USB
  cable and returns.
\<close>

theorem soft_reset_leaves_storage_untouched:
  assumes "isKey prefs ''init_done''"
    and "reset_reason env \<noteq> ESP_RST_POWERON"
    and "getInt prefs ''boot_count'' 0 < ENROLL_ROUNDS"
  shows "nvs_writes (setup_boot mbedtls_sha256 prefs env) = []
       \<and> prefs_after (setup_boot mbedtls_sha256 prefs env) = prefs
       \<and> getInt (prefs_after (setup_boot mbedtls_sha256 prefs env)) ''boot_count'' 0
           = getInt prefs ''boot_count'' 0
       \<and> prefs_after (setup_boot mbedtls_sha256 prefs env) ''acc'' = prefs ''acc''
       \<and> (puf_ram_block env \<noteq> None \<longrightarrow>
            exit_kind (setup_boot mbedtls_sha256 prefs env) = Returned
            \<and> serial_out (setup_boot mbedtls_sha256 prefs env)
                = [Println (CHR 0x0A # ''=== ESP32 OPTIMIZED PUF ENROLLMENT ===''),
                   Println ''>> IGNORED: Soft Reset detected.'',
                   Println ''>> ACTION: You must physically UNPLUG the USB.''])"
  using assms by (cases "puf_ram_block env") (simp_all add: boot_defs)

theorem soft_reset_leaves_storage_untouched_witness:
  "nvs_writes
     (setup_boot (\<lambda>_. [])
        [''init_done'' \<mapsto> NvsBool True, ''boot_count'' \<mapsto> NvsInt 3]
        \<lparr>reset_reason = ESP_RST_SW, puf_ram_block = Some (\<lambda>_. 0),
         accumulator_buf = Some (\<lambda>_. 0), put_returns = 0\<rparr>) = []
   \<and> prefs_after
     (setup_boot (\<lambda>_. [])
        [''init_done'' \<mapsto> NvsBool True, ''boot_count'' \<mapsto> NvsInt 3]
        \<lparr>reset_reason = ESP_RST_SW, puf_ram_block = Some (\<lambda>_. 0),
         accumulator_buf = Some (\<lambda>_. 0), put_returns = 0\<rparr>)
     = [''init_done'' \<mapsto> NvsBool True, ''boot_count'' \<mapsto> NvsInt 3]
   \<and> Println ''>> ACTION: You must physically UNPLUG the USB.''
     \<in> set (serial_out
       (setup_boot (\<lambda>_. [])
          [''init_done'' \<mapsto> NvsBool True, ''boot_count'' \<mapsto> NvsInt 3]
          \<lparr>reset_reason = ESP_RST_SW, puf_ram_block = Some (\<lambda>_. 0),
           accumulator_buf = Some (\<lambda>_. 0), put_returns = 0\<rparr>))"
  using soft_reset_leaves_storage_untouched
    [of "[''init_done'' \<mapsto> NvsBool True, ''boot_count'' \<mapsto> NvsInt 3]"
        "\<lparr>reset_reason = ESP_RST_SW, puf_ram_block = Some (\<lambda>_. 0),
          accumulator_buf = Some (\<lambda>_. 0), put_returns = 0\<rparr>"
        "\<lambda>_. []"]
  by (simp add: isKey_def getInt_def ENROLL_ROUNDS_def)

text \<open>
  Claim C10. On a namespace without \<^verbatim>\<open>init_done\<close>, a boot that has its SRAM block
  behaves as on an empty namespace (what was stored before is cleared), its first three
  writing calls are \<^verbatim>\<open>clear\<close>, \<^verbatim>\<open>putBool("init_done", true)\<close> and
  \<^verbatim>\<open>putInt("boot_count", 0)\<close>, and it leaves \<^verbatim>\<open>init_done\<close> set, whatever the reset
  reason. When the reset reason is not \<^verbatim>\<open>ESP_RST_POWERON\<close> these are its only writes:
  the namespace is left holding exactly \<^verbatim>\<open>init_done = true\<close> and \<^verbatim>\<open>boot_count = 0\<close>,
  and the first-run message is printed before the soft-reset message.
\<close>

theorem first_run_initialises_before_reset_check:
  assumes "\<not> isKey prefs ''init_done''"
    and "puf_ram_block env \<noteq> None"
  shows "setup_boot mbedtls_sha256 prefs env = setup_boot mbedtls_sha256 Map.empty env
       \<and> take 3 (nvs_writes (setup_boot mbedtls_sha256 prefs env))
           = [Clear, PutBool ''init_done'' True, PutInt ''boot_count'' 0]
       \<and> prefs_after (setup_boot mbedtls_sha256 prefs env) ''init_done'' = Some (NvsBool True)
       \<and> (reset_reason env \<noteq> ESP_RST_POWERON \<longrightarrow>
            setup_boot mbedtls_sha256 prefs env
            = \<lparr>prefs_after = [''init_done'' \<mapsto> NvsBool True, ''boot_count'' \<mapsto> NvsInt 0],
               nvs_writes = [Clear, PutBool ''init_done'' True, PutInt ''boot_count'' 0],
               serial_out =
                 [Println (CHR 0x0A # ''=== ESP32 OPTIMIZED PUF ENROLLMENT ===''),
                  Println ''>> First run detected. initializing storage...'',
                  Println ''>> IGNORED: Soft Reset detected.'',
                  Println ''>> ACTION: You must physically UNPLUG the USB.''],
               exit_kind = Returned\<rparr>)"
proof -
  from assms(2) obtain sram where sram: "puf_ram_block env = Some sram"
    by auto
  have e: "setup_boot mbedtls_sha256 prefs env = setup_boot mbedtls_sha256 Map.empty env"
    using assms(1) sram by (simp add: setup_boot_def Let_def isKey_def clear_def)
  have rest: "take 3 (nvs_writes (setup_boot mbedtls_sha256 Map.empty env))
           = [Clear, PutBool ''init_done'' True, PutInt ''boot_count'' 0]
       \<and> prefs_after (setup_boot mbedtls_sha256 Map.empty env) ''init_done''
           = Some (NvsBool True)"
    using sram
    by (cases "accumulator_buf env")
      (simp_all add: boot_defs prefs_defs ENROLL_ROUNDS_def)
  have soft: "setup_boot mbedtls_sha256 Map.empty env
            = \<lparr>prefs_after = [''init_done'' \<mapsto> NvsBool True, ''boot_count'' \<mapsto> NvsInt 0],
               nvs_writes = [Clear, PutBool ''init_done'' True, PutInt ''boot_count'' 0],
               serial_out =
                 [Println (CHR 0x0A # ''=== ESP32 OPTIMIZED PUF ENROLLMENT ===''),
                  Println ''>> First run detected. initializing storage...'',
                  Println ''>> IGNORED: Soft Reset detected.'',
                  Println ''>> ACTION: You must physically UNPLUG the USB.''],
               exit_kind = Returned\<rparr>"
    if "reset_reason env \<noteq> ESP_RST_POWERON"
    using sram that by (simp add: boot_defs prefs_defs ENROLL_ROUNDS_def)
  from e rest soft show ?thesis
    by simp
qed

theorem first_run_initialises_before_reset_check_witness:
  "prefs_after
     (setup_boot (\<lambda>_. [])
        [''boot_count'' \<mapsto> NvsInt 5, ''acc'' \<mapsto> NvsBytes [1, 2, 3]]
        \<lparr>reset_reason = ESP_RST_SW, puf_ram_block = Some (\<lambda>_. 0),
         accumulator_buf = Some (\<lambda>_. 0), put_returns = 0\<rparr>)
   = [''init_done'' \<mapsto> NvsBool True, ''boot_count'' \<mapsto> NvsInt 0]"
proof -
  let ?prefs = "[''boot_count'' \<mapsto> NvsInt 5, ''acc'' \<mapsto> NvsBytes [1, 2, 3]]"
  let ?env = "\<lparr>reset_reason = ESP_RST_SW, puf_ram_block = Some (\<lambda>_. 0),
               accumulator_buf = Some (\<lambda>_. 0), put_returns = 0\<rparr>"
  have stale: "\<not> isKey ?prefs ''init_done''"
    by (simp add: isKey_def)
  have block: "puf_ram_block ?env \<noteq> None"
    by simp
  have soft: "reset_reason ?env \<noteq> ESP_RST_POWERON"
    by simp
  from first_run_initialises_before_reset_check [OF stale block, of "\<lambda>_. []"] soft
  have "setup_boot (\<lambda>_. []) ?prefs ?env
        = \<lparr>prefs_after = [''init_done'' \<mapsto> NvsBool True, ''boot_count'' \<mapsto> NvsInt 0],
           nvs_writes = [Clear, PutBool ''init_done'' True, PutInt ''boot_count'' 0],
           serial_out =
             [Println (CHR 0x0A # ''=== ESP32 OPTIMIZED PUF ENROLLMENT ===''),
              Println ''>> First run detected. initializing storage...'',
              Println ''>> IGNORED: Soft Reset detected.'',
              Println ''>> ACTION: You must physically UNPLUG the USB.''],
           exit_kind = Returned\<rparr>"
    by blast
  then show ?thesis
    by simp
qed

lemma acc_size_pos: "0 < acc_size"
  by (simp add: acc_size_def PUF_SIZE_def)

lemma getBytes_full:
  assumes "getBytesLength prefs key = acc_size"
  shows "\<exists>b. prefs key = Some (NvsBytes b) \<and> length b = acc_size
           \<and> getBytes prefs key (map heap [0..<acc_size]) acc_size = b"
  using assms acc_size_pos
  by (auto simp: getBytesLength_def getBytes_def split: option.splits nvs_value.splits)

text \<open>
  Claim C4. A boot in which \<^verbatim>\<open>putBytes("acc", accumulator, acc_size)\<close> returns anything
  but \<open>acc_size\<close> (fewer bytes in particular) does not advance \<^verbatim>\<open>boot_count\<close>: on a
  namespace that already holds \<^verbatim>\<open>init_done\<close> it is afterwards what it was before, and
  the whole namespace is as it was; on a first run it is the 0 that the first-run
  initialisation stored. Apart from that initialisation the failed \<^verbatim>\<open>putBytes\<close> is the
  only writing call, and the critical storage error is printed.
\<close>

theorem failed_persist_keeps_boot_count:
  assumes "PutBytes ''acc'' acc_size written \<in> set (nvs_writes (setup_boot mbedtls_sha256 prefs env))"
    and "written \<noteq> acc_size"
  shows "getInt (prefs_after (setup_boot mbedtls_sha256 prefs env)) ''boot_count'' 0
           = (if isKey prefs ''init_done'' then getInt prefs ''boot_count'' 0 else 0)
       \<and> Println ''CRITICAL ERROR: Failed to save to storage! (NVS Full?)''
           \<in> set (serial_out (setup_boot mbedtls_sha256 prefs env))
       \<and> nvs_writes (setup_boot mbedtls_sha256 prefs env)
           = (if isKey prefs ''init_done'' then []
              else [Clear, PutBool ''init_done'' True, PutInt ''boot_count'' 0])
             @ [PutBytes ''acc'' acc_size written]
       \<and> (isKey prefs ''init_done'' \<longrightarrow>
            prefs_after (setup_boot mbedtls_sha256 prefs env) = prefs)"
proof (cases "isKey prefs ''init_done''")
  case True
  with assms show ?thesis
    by (auto simp: boot_defs putBytes_def split: option.splits if_splits)
next
  case False
  show ?thesis
  proof (cases "puf_ram_block env")
    case None
    with assms(1) show ?thesis
      by (simp add: boot_defs)
  next
    case sram: (Some sram)
    have zero: "getInt (putInt (putBool (clear prefs) ''init_done'' True) ''boot_count'' 0)
                  ''boot_count'' 0 = 0"
      by (simp add: prefs_defs)
    show ?thesis
    proof (cases "accumulator_buf env")
      case None
      with assms(1) False sram zero show ?thesis
        by (auto simp: boot_defs split: if_splits)
    next
      case (Some heap)
      with assms False sram zero show ?thesis
        by (auto simp: boot_defs putBytes_def split: if_splits)
    qed
  qed
qed

theorem failed_persist_keeps_boot_count_witness:
  "getInt
     (prefs_after
        (setup_boot (\<lambda>_. [])
           [''init_done'' \<mapsto> NvsBool True, ''boot_count'' \<mapsto> NvsInt 0]
           \<lparr>reset_reason = ESP_RST_POWERON, puf_ram_block = Some (\<lambda>_. 0),
            accumulator_buf = Some (\<lambda>_. 0), put_returns = 0\<rparr>))
     ''boot_count'' 0 = 0
   \<and> Println ''CRITICAL ERROR: Failed to save to storage! (NVS Full?)''
     \<in> set (serial_out
       (setup_boot (\<lambda>_. [])
          [''init_done'' \<mapsto> NvsBool True, ''boot_count'' \<mapsto> NvsInt 0]
          \<lparr>reset_reason = ESP_RST_POWERON, puf_ram_block = Some (\<lambda>_. 0),
           accumulator_buf = Some (\<lambda>_. 0), put_returns = 0\<rparr>))"
proof -
  let ?prefs = "[''init_done'' \<mapsto> NvsBool True, ''boot_count'' \<mapsto> NvsInt 0]"
  let ?env = "\<lparr>reset_reason = ESP_RST_POWERON, puf_ram_block = Some (\<lambda>_. 0),
               accumulator_buf = Some (\<lambda>_. 0), put_returns = 0\<rparr>"
  have init: "isKey ?prefs ''init_done''"
    by (simp add: isKey_def)
  have put: "PutBytes ''acc'' acc_size 0 \<in> set (nvs_writes (setup_boot (\<lambda>_. []) ?prefs ?env))"
    by (simp add: boot_defs prefs_defs ENROLL_ROUNDS_def)
  have short: "0 \<noteq> acc_size"
    using acc_size_pos by simp
  have before: "getInt ?prefs ''boot_count'' 0 = 0"
    by (simp add: getInt_def)
  from failed_persist_keeps_boot_count [OF put short] init before
  show ?thesis
    by simp
qed

text \<open>
  Claim C6, as stated, fails: with \<^verbatim>\<open>boot_count = 3\<close> and an \<^verbatim>\<open>acc\<close> blob of two
  bytes, a boot after a software reset returns at the reset check and neither resets
  \<^verbatim>\<open>boot_count\<close> nor reports a storage error.
\<close>

theorem size_mismatch_soft_reset_counterexample:
  "0 < getInt [''init_done'' \<mapsto> NvsBool True, ''boot_count'' \<mapsto> NvsInt 3,
              ''acc'' \<mapsto> NvsBytes [1, 2]] ''boot_count'' 0
   \<and> getBytesLength [''init_done'' \<mapsto> NvsBool True, ''boot_count'' \<mapsto> NvsInt 3,
                       ''acc'' \<mapsto> NvsBytes [1, 2]] ''acc'' \<noteq> acc_size
   \<and> getInt
       (prefs_after
          (setup_boot (\<lambda>_. [])
             [''init_done'' \<mapsto> NvsBool True, ''boot_count'' \<mapsto> NvsInt 3,
              ''acc'' \<mapsto> NvsBytes [1, 2]]
             \<lparr>reset_reason = ESP_RST_SW, puf_ram_block = Some (\<lambda>_. 0),
              accumulator_buf = Some (\<lambda>_. 0), put_returns = acc_size\<rparr>))
       ''boot_count'' 0 = 3
   \<and> Println ''Storage Error: Accumulator size mismatch. Resetting...''
       \<notin> set (serial_out
          (setup_boot (\<lambda>_. [])
             [''init_done'' \<mapsto> NvsBool True, ''boot_count'' \<mapsto> NvsInt 3,
              ''acc'' \<mapsto> NvsBytes [1, 2]]
             \<lparr>reset_reason = ESP_RST_SW, puf_ram_block = Some (\<lambda>_. 0),
              accumulator_buf = Some (\<lambda>_. 0), put_returns = acc_size\<rparr>))"
proof -
  have "(2 :: nat) \<noteq> acc_size"
    by (simp add: acc_size_def PUF_SIZE_def)
  then show ?thesis
    by (simp add: boot_defs prefs_defs ENROLL_ROUNDS_def)
qed

text \<open>
  Claim C6, amended. On a namespace that already holds \<^verbatim>\<open>init_done\<close>, a boot after a
  power-on with \<^verbatim>\<open>0 < boot_count < ENROLL_ROUNDS\<close> and both buffers allocated, in which
  the stored \<^verbatim>\<open>acc\<close> blob does not have \<open>acc_size\<close> bytes: its only write is
  \<^verbatim>\<open>putInt("boot_count", 0)\<close>, so \<^verbatim>\<open>boot_count\<close> is 0 afterwards and the \<^verbatim>\<open>acc\<close> entry
  is as it was; it prints the storage error and returns; and the whole result is the
  same whatever the SRAM block holds (the sample is not used).
\<close>

theorem size_mismatch_resets_boot_count:
  assumes "isKey prefs ''init_done''"
    and "reset_reason env = ESP_RST_POWERON"
    and "puf_ram_block env \<noteq> None"
    and "accumulator_buf env \<noteq> None"
    and "0 < getInt prefs ''boot_count'' 0"
    and "getInt prefs ''boot_count'' 0 < ENROLL_ROUNDS"
    and "getBytesLength prefs ''acc'' \<noteq> acc_size"
  shows "setup_boot mbedtls_sha256 prefs env
         = \<lparr>prefs_after = putInt prefs ''boot_count'' 0,
            nvs_writes = [PutInt ''boot_count'' 0],
            serial_out =
              [Println (CHR 0x0A # ''=== ESP32 OPTIMIZED PUF ENROLLMENT ===''),
               Printf_Training_Step (getInt prefs ''boot_count'' 0 + 1) ENROLL_ROUNDS,
               Println ''Storage Error: Accumulator size mismatch. Resetting...''],
            exit_kind = Returned\<rparr>
       \<and> getInt (prefs_after (setup_boot mbedtls_sha256 prefs env)) ''boot_count'' 0 = 0
       \<and> prefs_after (setup_boot mbedtls_sha256 prefs env) ''acc'' = prefs ''acc''
       \<and> setup_boot mbedtls_sha256 prefs (env\<lparr>puf_ram_block := Some sram\<rparr>)
           = setup_boot mbedtls_sha256 prefs env"
  using assms by (auto simp: boot_defs putInt_def getInt_def)

theorem size_mismatch_resets_boot_count_witness:
  "getInt
     (prefs_after
        (setup_boot (\<lambda>_. [])
           [''init_done'' \<mapsto> NvsBool True, ''boot_count'' \<mapsto> NvsInt 3,
            ''acc'' \<mapsto> NvsBytes [4, 5]]
           \<lparr>reset_reason = ESP_RST_POWERON, puf_ram_block = Some (\<lambda>_. 0),
            accumulator_buf = Some (\<lambda>_. 0), put_returns = acc_size\<rparr>))
     ''boot_count'' 0 = 0
   \<and> prefs_after
        (setup_boot (\<lambda>_. [])
           [''init_done'' \<mapsto> NvsBool True, ''boot_count'' \<mapsto> NvsInt 3,
            ''acc'' \<mapsto> NvsBytes [4, 5]]
           \<lparr>reset_reason = ESP_RST_POWERON, puf_ram_block = Some (\<lambda>_. 0),
            accumulator_buf = Some (\<lambda>_. 0), put_returns = acc_size\<rparr>) ''acc''
     = Some (NvsBytes [4, 5])"
proof -
  let ?prefs = "[''init_done'' \<mapsto> NvsBool True, ''boot_count'' \<mapsto> NvsInt 3,
                 ''acc'' \<mapsto> NvsBytes [4, 5]]"
  let ?env = "\<lparr>reset_reason = ESP_RST_POWERON, puf_ram_block = Some (\<lambda>_. 0),
               accumulator_buf = Some (\<lambda>_. 0), put_returns = acc_size\<rparr>"
  have "(2 :: nat) \<noteq> acc_size"
    by (simp add: acc_size_def PUF_SIZE_def)
  then have hyps: "isKey ?prefs ''init_done''" "reset_reason ?env = ESP_RST_POWERON"
    "puf_ram_block ?env \<noteq> None" "accumulator_buf ?env \<noteq> None"
    "0 < getInt ?prefs ''boot_count'' 0" "getInt ?prefs ''boot_count'' 0 < ENROLL_ROUNDS"
    "getBytesLength ?prefs ''acc'' \<noteq> acc_size"
    by (simp_all add: prefs_defs ENROLL_ROUNDS_def)
  have stored: "?prefs ''acc'' = Some (NvsBytes [4, 5])"
    by simp
  from size_mismatch_resets_boot_count [OF hyps, of "\<lambda>_. []"] stored
  show ?thesis
    by metis
qed

text \<open>
  Claim C8, as stated, fails: with \<^verbatim>\<open>boot_count = 3\<close> and an \<^verbatim>\<open>acc\<close> blob of the wrong
  size, a boot after a power-on leaves \<^verbatim>\<open>boot_count\<close> smaller than it found it.
\<close>

theorem boot_count_decreases_counterexample:
  "getInt
     (prefs_after
        (setup_boot (\<lambda>_. [])
           [''init_done'' \<mapsto> NvsBool True, ''boot_count'' \<mapsto> NvsInt 3,
            ''acc'' \<mapsto> NvsBytes [1, 0, 3]]
           \<lparr>reset_reason = ESP_RST_POWERON, puf_ram_block = Some (\<lambda>_. 0),
            accumulator_buf = Some (\<lambda>_. 0), put_returns = acc_size\<rparr>))
     ''boot_count'' 0
   < getInt [''init_done'' \<mapsto> NvsBool True, ''boot_count'' \<mapsto> NvsInt 3,
            ''acc'' \<mapsto> NvsBytes [1, 0, 3]] ''boot_count'' 0"
proof -
  have "(3 :: nat) \<noteq> acc_size"
    by (simp add: acc_size_def PUF_SIZE_def)
  then show ?thesis
    by (simp add: boot_defs prefs_defs ENROLL_ROUNDS_def)
qed

text \<open>
  Claim C8, amended. On a namespace that already holds \<^verbatim>\<open>init_done\<close>, a boot leaves
  \<^verbatim>\<open>boot_count\<close> as it was, or sets it to 0, or raises it by one. It is smaller
  afterwards only when it is 0 after a power-on boot that found the \<^verbatim>\<open>acc\<close> blob with
  the wrong size and printed the storage error. It is larger afterwards only when it is
  exactly one more, after a power-on boot whose \<^verbatim>\<open>putBytes\<close> returned \<open>acc_size\<close>, whose
  writes are that \<^verbatim>\<open>putBytes\<close> followed by the \<^verbatim>\<open>putInt\<close> of the new count, and which leaves
  an \<^verbatim>\<open>acc\<close> blob of \<open>acc_size\<close> bytes and the new count in the namespace.
\<close>

theorem boot_count_changes:
  assumes "isKey prefs ''init_done''"
  shows "(getInt (prefs_after (setup_boot mbedtls_sha256 prefs env)) ''boot_count'' 0
            < getInt prefs ''boot_count'' 0 \<longrightarrow>
          getInt (prefs_after (setup_boot mbedtls_sha256 prefs env)) ''boot_count'' 0 = 0
          \<and> reset_reason env = ESP_RST_POWERON
          \<and> getBytesLength prefs ''acc'' \<noteq> acc_size
          \<and> Println ''Storage Error: Accumulator size mismatch. Resetting...''
              \<in> set (serial_out (setup_boot mbedtls_sha256 prefs env)))
       \<and> (getInt prefs ''boot_count'' 0
            < getInt (prefs_after (setup_boot mbedtls_sha256 prefs env)) ''boot_count'' 0 \<longrightarrow>
          getInt (prefs_after (setup_boot mbedtls_sha256 prefs env)) ''boot_count'' 0
            = getInt prefs ''boot_count'' 0 + 1
          \<and> reset_reason env = ESP_RST_POWERON
          \<and> put_returns env = acc_size
          \<and> nvs_writes (setup_boot mbedtls_sha256 prefs env)
              = [PutBytes ''acc'' acc_size acc_size,
                 PutInt ''boot_count'' (getInt prefs ''boot_count'' 0 + 1)]
          \<and> prefs_after (setup_boot mbedtls_sha256 prefs env) ''boot_count''
              = Some (NvsInt (getInt prefs ''boot_count'' 0 + 1))
          \<and> (\<exists>accumulator.
                prefs_after (setup_boot mbedtls_sha256 prefs env) ''acc''
                  = Some (NvsBytes accumulator)
                \<and> length accumulator = acc_size))"
proof (cases "puf_ram_block env")
  case None
  then show ?thesis
    by (simp add: boot_defs)
next
  case sram: (Some sram)
  show ?thesis
  proof (cases "accumulator_buf env")
    case None
    with sram assms show ?thesis
      by (auto simp: boot_defs)
  next
    case heap: (Some heap)
    have len: "length (scan_ram ram (getBytes prefs ''acc'' (map heap [0..<acc_size]) acc_size))
               = acc_size"
      if "getBytesLength prefs ''acc'' = acc_size" for ram
      using getBytes_full [OF that, of heap] by (auto simp: scan_ram_length)
    from sram heap assms len show ?thesis
      by (auto simp: boot_defs putInt_def putBytes_def getInt_def scan_ram_length)
  qed
qed

theorem boot_count_changes_witness:
  "getInt
     (prefs_after
        (setup_boot (\<lambda>_. [])
           [''init_done'' \<mapsto> NvsBool True, ''boot_count'' \<mapsto> NvsInt 0]
           \<lparr>reset_reason = ESP_RST_POWERON, puf_ram_block = Some (\<lambda>_. 1),
            accumulator_buf = Some (\<lambda>_. 0), put_returns = acc_size\<rparr>))
     ''boot_count'' 0 = 1
   \<and> nvs_writes
       (setup_boot (\<lambda>_. [])
          [''init_done'' \<mapsto> NvsBool True, ''boot_count'' \<mapsto> NvsInt 0]
          \<lparr>reset_reason = ESP_RST_POWERON, puf_ram_block = Some (\<lambda>_. 1),
           accumulator_buf = Some (\<lambda>_. 0), put_returns = acc_size\<rparr>)
     = [PutBytes ''acc'' acc_size acc_size, PutInt ''boot_count'' 1]"
proof -
  let ?prefs = "[''init_done'' \<mapsto> NvsBool True, ''boot_count'' \<mapsto> NvsInt 0]"
  let ?env = "\<lparr>reset_reason = ESP_RST_POWERON, puf_ram_block = Some (\<lambda>_. 1),
               accumulator_buf = Some (\<lambda>_. 0), put_returns = acc_size\<rparr>"
  have init: "isKey ?prefs ''init_done''"
    by (simp add: isKey_def)
  have before: "getInt ?prefs ''boot_count'' 0 = 0"
    by (simp add: getInt_def)
  have after: "getInt (prefs_after (setup_boot (\<lambda>_. []) ?prefs ?env)) ''boot_count'' 0 = 1"
    by (simp add: boot_defs prefs_defs ENROLL_ROUNDS_def)
  from boot_count_changes [OF init, of "\<lambda>_. []" ?env]
  show ?thesis
    unfolding before after by simp
qed

section \<open>Key generation\<close>

lemma getBytes_stored:
  assumes "prefs key = Some (NvsBytes b)" and "length b = acc_size"
  shows "getBytes prefs key (map heap [0..<acc_size]) acc_size = b"
  using assms by (simp add: getBytes_def)

text \<open>
  Claim C1. Once \<^verbatim>\<open>boot_count\<close> has reached \<open>ENROLL_ROUNDS\<close>, a boot that has its two
  buffers prints the same lines, the final key among them, as any other such boot on a
  namespace holding the same \<^verbatim>\<open>acc\<close> blob of \<open>acc_size\<close> bytes: the reset reason, the
  SRAM contents, the contents of the fresh buffer, the value of \<^verbatim>\<open>boot_count\<close> and the
  rest of the namespace play no part. The key printed is the hash of the candidate that
  the classification loop builds from the blob, and the boot writes nothing, so the next
  boot finds the same blob and prints the same key again.
\<close>

theorem key_derivation_deterministic:
  assumes "isKey prefs ''init_done''" and "isKey prefs' ''init_done''"
    and "ENROLL_ROUNDS \<le> getInt prefs ''boot_count'' 0"
    and "ENROLL_ROUNDS \<le> getInt prefs' ''boot_count'' 0"
    and "prefs ''acc'' = Some (NvsBytes accumulator)"
    and "prefs' ''acc'' = Some (NvsBytes accumulator)"
    and "length accumulator = acc_size"
    and "puf_ram_block env \<noteq> None" and "accumulator_buf env \<noteq> None"
    and "puf_ram_block env' \<noteq> None" and "accumulator_buf env' \<noteq> None"
  shows "serial_out (setup_boot mbedtls_sha256 prefs env)
           = serial_out (setup_boot mbedtls_sha256 prefs' env')
       \<and> serial_out (setup_boot mbedtls_sha256 prefs env)
           = [Println (CHR 0x0A # ''=== ESP32 OPTIMIZED PUF ENROLLMENT ===''),
              Println ''Training Complete! calculating stable bits...'',
              Printf_Stability (snd (classify accumulator)) (int (PUF_SIZE * 8)),
              Println ''---------------------------------------------'',
              Print ''FINAL PUF KEY: '',
              Println (printHash
                (computeSHA256 mbedtls_sha256 (fst (classify accumulator)) PUF_SIZE)),
              Println ''---------------------------------------------'']
       \<and> prefs_after (setup_boot mbedtls_sha256 prefs env) = prefs
       \<and> nvs_writes (setup_boot mbedtls_sha256 prefs env) = []
       \<and> exit_kind (setup_boot mbedtls_sha256 prefs env) = Returned"
proof -
  have run: "setup_boot mbedtls_sha256 p e
           = \<lparr>prefs_after = p, nvs_writes = [],
              serial_out =
                [Println (CHR 0x0A # ''=== ESP32 OPTIMIZED PUF ENROLLMENT ===''),
                 Println ''Training Complete! calculating stable bits...'',
                 Printf_Stability (snd (classify accumulator)) (int (PUF_SIZE * 8)),
                 Println ''---------------------------------------------'',
                 Print ''FINAL PUF KEY: '',
                 Println (printHash
                   (computeSHA256 mbedtls_sha256 (fst (classify accumulator)) PUF_SIZE)),
                 Println ''---------------------------------------------''],
              exit_kind = Returned\<rparr>"
    if "isKey p ''init_done''" and "ENROLL_ROUNDS \<le> getInt p ''boot_count'' 0"
      and "p ''acc'' = Some (NvsBytes accumulator)"
      and "puf_ram_block e \<noteq> None" and "accumulator_buf e \<noteq> None"
    for p e
    using that getBytes_stored [of p "''acc''", OF that(3) assms(7)]
    by (auto simp: boot_defs)
  from run [of prefs env] run [of prefs' env'] assms show ?thesis
    by simp
qed

theorem key_derivation_deterministic_witness:
  "serial_out
     (setup_boot (\<lambda>_. [])
        [''init_done'' \<mapsto> NvsBool True, ''boot_count'' \<mapsto> NvsInt 7,
         ''acc'' \<mapsto> NvsBytes (replicate acc_size 6)]
        \<lparr>reset_reason = ESP_RST_POWERON, puf_ram_block = Some (\<lambda>_. 0),
         accumulator_buf = Some (\<lambda>_. 0), put_returns = 0\<rparr>)
   = serial_out
     (setup_boot (\<lambda>_. [])
        [''init_done'' \<mapsto> NvsBool True, ''boot_count'' \<mapsto> NvsInt 7,
         ''acc'' \<mapsto> NvsBytes (replicate acc_size 6)]
        \<lparr>reset_reason = ESP_RST_SW, puf_ram_block = Some (\<lambda>_. 255),
         accumulator_buf = Some (\<lambda>_. 170), put_returns = acc_size\<rparr>)"
proof -
  let ?prefs = "[''init_done'' \<mapsto> NvsBool True, ''boot_count'' \<mapsto> NvsInt 7,
                 ''acc'' \<mapsto> NvsBytes (replicate acc_size 6)]"
  let ?env = "\<lparr>reset_reason = ESP_RST_POWERON, puf_ram_block = Some (\<lambda>_. 0),
               accumulator_buf = Some (\<lambda>_. 0), put_returns = 0\<rparr>"
  let ?env' = "\<lparr>reset_reason = ESP_RST_SW, puf_ram_block = Some (\<lambda>_. 255),
                accumulator_buf = Some (\<lambda>_. 170), put_returns = acc_size\<rparr>"
  have init: "isKey ?prefs ''init_done''"
    by (simp add: isKey_def)
  have complete: "ENROLL_ROUNDS \<le> getInt ?prefs ''boot_count'' 0"
    by (simp add: getInt_def ENROLL_ROUNDS_def)
  have stored: "?prefs ''acc'' = Some (NvsBytes (replicate acc_size 6))"
    by simp
  have len: "length (replicate acc_size (6 :: byte)) = acc_size"
    by simp
  have bufs: "puf_ram_block ?env \<noteq> None" "accumulator_buf ?env \<noteq> None"
    "puf_ram_block ?env' \<noteq> None" "accumulator_buf ?env' \<noteq> None"
    by simp_all
  from key_derivation_deterministic
    [OF init init complete complete stored stored len bufs, of "\<lambda>_. []"]
  show ?thesis
    by blast
qed

section \<open>The namespaces a device can reach\<close>




















end
